theory Spec2Isabelle
  imports Complex_Main "HOL-Library.Word"
begin

section \<open>Values and errors\<close>

text \<open>
  The tool (\<^verbatim>\<open>src/Tools/tiftool.py\<close>) works on numpy arrays of samples. A raster is
  modelled as its list of rows, each sample by its value; the array's dtype, which
  numpy keeps with the array, travels beside the rows where the arithmetic depends
  on it. Double-precision arithmetic is read as arithmetic on \<^typ>\<open>real\<close>: the
  rounding of a floating-point operation is not modelled. What numpy does where
  exact arithmetic has no answer is modelled: a division by zero on arrays or
  numpy scalars does not raise, it yields NaN or an infinity (with a warning), so
  the result of such a division is an \<open>npfloat\<close>; and integer arithmetic within a
  dtype wraps around. Python's own \<^verbatim>\<open>float\<close> division does raise.
\<close>

datatype error =
    Exception string    \<comment> \<open>\<^verbatim>\<open>raise Exception("...")\<close>\<close>
  | ValueError          \<comment> \<open>\<^verbatim>\<open>np.min\<close>/\<^verbatim>\<open>np.max\<close> of a zero-size array\<close>
  | ZeroDivisionError   \<comment> \<open>\<^verbatim>\<open>/\<close> on Python floats with a zero divisor\<close>
  | Cv2Error            \<comment> \<open>a failed assertion inside \<^verbatim>\<open>cv2.resize\<close>\<close>

datatype npfloat = Finite real | NaN | PInf | NInf

type_synonym raster = "real list list"

text \<open>\<^verbatim>\<open>np.min(img)\<close> and \<^verbatim>\<open>np.max(img)\<close> reduce over every sample of the array and
  raise \<^verbatim>\<open>ValueError\<close> on an array without samples.\<close>

definition np_min :: "raster \<Rightarrow> error + real" where
  "np_min img = (case concat img of [] \<Rightarrow> Inl ValueError | x # xs \<Rightarrow> Inr (fold min xs x))"

definition np_max :: "raster \<Rightarrow> error + real" where
  "np_max img = (case concat img of [] \<Rightarrow> Inl ValueError | x # xs \<Rightarrow> Inr (fold max xs x))"

text \<open>\<^verbatim>\<open>a / b\<close> on numpy values: no exception, IEEE special values instead.\<close>

definition np_divide :: "real \<Rightarrow> real \<Rightarrow> npfloat" where
  "np_divide a b =
     (if b = 0 then (if a = 0 then NaN else if 0 < a then PInf else NInf)
      else Finite (a / b))"

text \<open>\<^verbatim>\<open>np.rint\<close>: the nearest integer, a tie going to the even neighbour.\<close>

definition rint :: "real \<Rightarrow> real" where
  "rint x =
     (let f = \<lfloor>x\<rfloor>; d = x - of_int f
      in if d < 1 / 2 then of_int f
         else if 1 / 2 < d then of_int (f + 1)
         else if even f then of_int f else of_int (f + 1))"

fun np_rint :: "npfloat \<Rightarrow> npfloat" where
  "np_rint (Finite x) = Finite (rint x)"
| "np_rint v = v"

text \<open>\<^verbatim>\<open>u * c\<close>, \<^verbatim>\<open>np.clip(u, lo, hi)\<close> (which is \<^verbatim>\<open>minimum(hi, maximum(u, lo))\<close>) and
  \<^verbatim>\<open>u + c\<close> for an array element \<open>u\<close> and finite scalars.\<close>

fun np_multiply :: "npfloat \<Rightarrow> real \<Rightarrow> npfloat" where
  "np_multiply (Finite x) c = Finite (x * c)"
| "np_multiply NaN c = NaN"
| "np_multiply PInf c = (if 0 < c then PInf else if c < 0 then NInf else NaN)"
| "np_multiply NInf c = (if 0 < c then NInf else if c < 0 then PInf else NaN)"

fun np_clip :: "npfloat \<Rightarrow> real \<Rightarrow> real \<Rightarrow> npfloat" where
  "np_clip (Finite x) lo hi = Finite (min hi (max x lo))"
| "np_clip NaN lo hi = NaN"
| "np_clip PInf lo hi = Finite hi"
| "np_clip NInf lo hi = Finite (min hi lo)"

fun np_add :: "npfloat \<Rightarrow> real \<Rightarrow> npfloat" where
  "np_add (Finite x) c = Finite (x + c)"
| "np_add v c = v"

text \<open>Python's \<^verbatim>\<open>int(x)\<close> on a float, and the C conversion behind
  \<^verbatim>\<open>astype(np.uint16)\<close>, drop the fractional part (towards zero). The conversion
  to 16 bits of a value outside \<open>0 .. 65535\<close> is left open by C; numpy on the
  common platforms keeps the low 16 bits, and gives 0 for NaN and the infinities.\<close>

definition py_int :: "real \<Rightarrow> int" where
  "py_int x = (if 0 \<le> x then \<lfloor>x\<rfloor> else \<lceil>x\<rceil>)"

fun astype_uint16 :: "npfloat \<Rightarrow> 16 word" where
  "astype_uint16 (Finite x) = word_of_int (py_int x)"
| "astype_uint16 v = 0"

section \<open>Array dtypes\<close>

text \<open>
  The dtypes are those of a GDAL band. \<^verbatim>\<open>np.min\<close> and \<^verbatim>\<open>np.max\<close> return a scalar of
  the array's dtype, and a subtraction between an array and such a scalar, or
  between two such scalars, stays in that dtype: for an integer dtype the result
  is kept modulo \<open>2 ^ bit_width\<close>, in two's complement for the signed ones, and
  nothing is raised. A Python number that meets a numpy value is taken at its
  value (numpy before version 2). \<open>representable\<close> says which values an array of
  a dtype can hold.
\<close>

datatype dtype =
  uint8 | int8 | uint16 | int16 | uint32 | int32 | uint64 | int64 | float32 | float64

fun bit_width :: "dtype \<Rightarrow> nat" where
  "bit_width uint8 = 8" | "bit_width int8 = 8"
| "bit_width uint16 = 16" | "bit_width int16 = 16"
| "bit_width uint32 = 32" | "bit_width int32 = 32"
| "bit_width uint64 = 64" | "bit_width int64 = 64"
| "bit_width float32 = 32" | "bit_width float64 = 64"

fun is_signed :: "dtype \<Rightarrow> bool" where
  "is_signed int8 = True" | "is_signed int16 = True"
| "is_signed int32 = True" | "is_signed int64 = True"
| "is_signed dt = False"

fun floating :: "dtype \<Rightarrow> bool" where
  "floating float32 = True" | "floating float64 = True"
| "floating dt = False"

definition wrap :: "dtype \<Rightarrow> int \<Rightarrow> int" where
  "wrap dt k =
     (if is_signed dt
      then (k + 2 ^ (bit_width dt - 1)) mod 2 ^ bit_width dt - 2 ^ (bit_width dt - 1)
      else k mod 2 ^ bit_width dt)"

definition np_subtract :: "dtype \<Rightarrow> real \<Rightarrow> real \<Rightarrow> real" where
  "np_subtract dt a b = (if floating dt then a - b else of_int (wrap dt (\<lfloor>a\<rfloor> - \<lfloor>b\<rfloor>)))"

definition representable :: "dtype \<Rightarrow> real \<Rightarrow> bool" where
  "representable dt x =
     (floating dt \<or>
      (of_int \<lfloor>x\<rfloor> = x \<and>
       (if is_signed dt
        then - (2 ^ (bit_width dt - 1)) \<le> \<lfloor>x\<rfloor> \<and> \<lfloor>x\<rfloor> < 2 ^ (bit_width dt - 1)
        else 0 \<le> \<lfloor>x\<rfloor> \<and> \<lfloor>x\<rfloor> < 2 ^ bit_width dt)))"

definition well_typed :: "dtype \<Rightarrow> raster \<Rightarrow> bool" where
  "well_typed dt img = list_all (representable dt) (concat img)"

section \<open>The source raster\<close>

text \<open>
  \<^verbatim>\<open>get_geotiff_data\<close> reads everything from GDAL. The opened dataset is modelled by
  what the function asks of it: the six coefficients of the geotransform, the
  sample array, and the bit size of band 1's data type. \<^verbatim>\<open>gdal.Open\<close> is a lookup
  that yields no dataset for a file it cannot open.
  \<^verbatim>\<open>band.ComputeRasterMinMax()\<close> is GDAL's exact scan of the band's samples (the
  default \<^verbatim>\<open>approx_ok = 0\<close>); a band with no sample to scan makes it fail.
\<close>

record dataset =
  GetGeoTransform :: "real \<times> real \<times> real \<times> real \<times> real \<times> real"
  ReadAsArray :: raster
  GetDataTypeSize :: nat

definition ComputeRasterMinMax :: "dataset \<Rightarrow> error + real \<times> real" where
  "ComputeRasterMinMax ds =
     (case np_min (ReadAsArray ds) of
        Inl e \<Rightarrow> Inl e
      | Inr lo \<Rightarrow> (case np_max (ReadAsArray ds) of Inl e \<Rightarrow> Inl e | Inr hi \<Rightarrow> Inr (lo, hi)))"

text \<open>\<^verbatim>\<open>a / b\<close> on Python floats.\<close>

definition py_truediv :: "real \<Rightarrow> real \<Rightarrow> error + real" where
  "py_truediv a b = (if b = 0 then Inl ZeroDivisionError else Inr (a / b))"

definition get_geotiff_data ::
  "(string \<Rightarrow> dataset option) \<Rightarrow> string \<Rightarrow> error + raster \<times> nat \<times> real \<times> real \<times> real" where
  "get_geotiff_data gdal_Open geotiff_path =
     (case gdal_Open geotiff_path of
        None \<Rightarrow> Inl (Exception ''Error opening GeoTIFF file.'')
      | Some ds \<Rightarrow>
          (case GetGeoTransform ds of (g0, g1, g2, g3, g4, g5) \<Rightarrow>
             let img = ReadAsArray ds;
                 pixel_width = \<bar>g1\<bar>;
                 pixel_height = \<bar>g5\<bar>;
                 color_depth = GetDataTypeSize ds
             in (case ComputeRasterMinMax ds of
                   Inl e \<Rightarrow> Inl e
                 | Inr (min_elevation, max_elevation) \<Rightarrow>
                     (case py_truediv (max_elevation - min_elevation)
                                      (of_int (2 ^ color_depth - 1)) of
                        Inl e \<Rightarrow> Inl e
                      | Inr color_step_dist \<Rightarrow>
                          Inr (img, color_depth, pixel_width, pixel_height, color_step_dist)))))"

section \<open>Resampling\<close>

definition calculate_resize_factors :: "real \<Rightarrow> real \<Rightarrow> real \<Rightarrow> error + real \<times> real" where
  "calculate_resize_factors orig_pixel_width orig_pixel_height new_pixel_size =
     (case py_truediv orig_pixel_width new_pixel_size of
        Inl e \<Rightarrow> Inl e
      | Inr resize_factor_x \<Rightarrow>
          (case py_truediv orig_pixel_height new_pixel_size of
             Inl e \<Rightarrow> Inl e
           | Inr resize_factor_y \<Rightarrow> Inr (resize_factor_x, resize_factor_y)))"

text \<open>
  \<^verbatim>\<open>img.shape[:2]\<close> is (rows, columns). \<^verbatim>\<open>cv2.resize(img, (w, h))\<close> is OpenCV's: it
  rejects an empty source and an empty size (a width or height of 0 or less), and
  otherwise returns an array of \<open>h\<close> rows and \<open>w\<close> columns. Which value it puts at
  row \<open>r\<close>, column \<open>c\<close> is its interpolation, a parameter \<open>interp\<close> here.
\<close>

definition shape :: "'a list list \<Rightarrow> nat \<times> nat" where
  "shape img = (length img, (case img of [] \<Rightarrow> 0 | row # _ \<Rightarrow> length row))"

definition cv2_resize ::
  "(raster \<Rightarrow> nat \<times> nat \<Rightarrow> nat \<Rightarrow> nat \<Rightarrow> real) \<Rightarrow> raster \<Rightarrow> int \<times> int \<Rightarrow> error + raster" where
  "cv2_resize interp img dsize =
     (case dsize of (w, h) \<Rightarrow>
        if fst (shape img) = 0 \<or> snd (shape img) = 0 then Inl Cv2Error
        else if w \<le> 0 \<or> h \<le> 0 then Inl Cv2Error
        else Inr (map (\<lambda>r. map (\<lambda>c. interp img (nat w, nat h) r c) [0..<nat w]) [0..<nat h]))"

definition resize_image ::
  "(raster \<Rightarrow> nat \<times> nat \<Rightarrow> nat \<Rightarrow> nat \<Rightarrow> real) \<Rightarrow> raster \<Rightarrow> real \<Rightarrow> real \<Rightarrow> error + raster" where
  "resize_image interp img resize_factor_x resize_factor_y =
     (case shape img of (orig_height, orig_width) \<Rightarrow>
        let new_width = py_int (real orig_width * resize_factor_x);
            new_height = py_int (real orig_height * resize_factor_y)
        in cv2_resize interp img (new_width, new_height))"

section \<open>Normalisation\<close>

text \<open>
  \<^verbatim>\<open>normalize_to_uint16\<close> takes the extrema once and then works element by element.
  \<open>color_range_of\<close> is lines 59 to 62; \<open>pixel_value\<close> is what lines 56, 58, 63 and
  64 make of one sample before the cast to \<^verbatim>\<open>np.uint16\<close>;
  \<open>normalize_to_uint16\<close> casts these values and adds the step distance of line 65.
  The three differences \<^verbatim>\<open>img - img_min\<close> and \<^verbatim>\<open>img_max - img_min\<close> (lines 56, 60
  and 65) are taken in the dtype \<open>dt\<close> of \<^verbatim>\<open>img\<close>; the divisions give doubles.
\<close>

definition color_range_of :: "dtype \<Rightarrow> real \<Rightarrow> real \<Rightarrow> real \<Rightarrow> bool \<Rightarrow> real" where
  "color_range_of dt img_min img_max new_color_step_dist use_binary_mode =
     (if \<not> use_binary_mode \<and> 0 < new_color_step_dist \<and> new_color_step_dist < 65535
      then np_subtract dt img_max img_min / new_color_step_dist
      else 65535)"

definition pixel_value :: "dtype \<Rightarrow> real \<Rightarrow> real \<Rightarrow> real \<Rightarrow> bool \<Rightarrow> real \<Rightarrow> npfloat" where
  "pixel_value dt img_min img_max new_color_step_dist use_binary_mode x =
     (let normalized = np_divide (np_subtract dt x img_min) (np_subtract dt img_max img_min);
          normalized = (if use_binary_mode then np_rint normalized else normalized);
          color_range = color_range_of dt img_min img_max new_color_step_dist use_binary_mode;
          normalized = np_multiply normalized color_range
      in np_add (np_clip normalized 0 color_range) ((65535 - color_range) / 2))"

definition normalize_to_uint16 ::
  "dtype \<Rightarrow> raster \<Rightarrow> real \<Rightarrow> bool \<Rightarrow> error + 16 word list list \<times> npfloat" where
  "normalize_to_uint16 dt img new_color_step_dist use_binary_mode =
     (case np_min img of
        Inl e \<Rightarrow> Inl e
      | Inr img_min \<Rightarrow>
          (case np_max img of
             Inl e \<Rightarrow> Inl e
           | Inr img_max \<Rightarrow>
               let color_range =
                     color_range_of dt img_min img_max new_color_step_dist use_binary_mode;
                   normalized_img =
                     map (map (\<lambda>x. astype_uint16
                       (pixel_value dt img_min img_max new_color_step_dist use_binary_mode x))) img;
                   color_step_dist = np_divide (np_subtract dt img_max img_min) color_range
               in Inr (normalized_img, color_step_dist)))"

section \<open>Properties\<close>

subsection \<open>Extrema and rounding\<close>

lemma fold_min_Min: "fold min xs (x::real) = Min (set (x # xs))"
  by (simp only: Min.set_eq_fold)

lemma fold_max_Max: "fold max xs (x::real) = Max (set (x # xs))"
  by (simp only: Max.set_eq_fold)

lemma np_min_Inr:
  "np_min img = Inr lo \<longleftrightarrow> concat img \<noteq> [] \<and> lo = Min (set (concat img))"
proof (cases "concat img")
  case Nil
  then show ?thesis unfolding np_min_def Nil by simp
next
  case (Cons x xs)
  then show ?thesis
    unfolding np_min_def Cons by (auto simp only: list.case fold_min_Min sum.inject list.distinct)
qed

lemma np_max_Inr:
  "np_max img = Inr hi \<longleftrightarrow> concat img \<noteq> [] \<and> hi = Max (set (concat img))"
proof (cases "concat img")
  case Nil
  then show ?thesis unfolding np_max_def Nil by simp
next
  case (Cons x xs)
  then show ?thesis
    unfolding np_max_def Cons by (auto simp only: list.case fold_max_Max sum.inject list.distinct)
qed

lemma np_min_mem: "np_min img = Inr lo \<Longrightarrow> lo \<in> set (concat img)"
  unfolding np_min_Inr using Min_in [of "set (concat img)"] by simp

lemma np_max_mem: "np_max img = Inr hi \<Longrightarrow> hi \<in> set (concat img)"
  unfolding np_max_Inr using Max_in [of "set (concat img)"] by simp

lemma np_min_le: "np_min img = Inr lo \<Longrightarrow> x \<in> set (concat img) \<Longrightarrow> lo \<le> x"
  unfolding np_min_Inr by simp

lemma np_max_ge: "np_max img = Inr hi \<Longrightarrow> x \<in> set (concat img) \<Longrightarrow> x \<le> hi"
  unfolding np_max_Inr by simp

lemma rint_0: "rint 0 = 0" by (simp add: rint_def)
lemma rint_1: "rint 1 = 1" by (simp add: rint_def)

subsection \<open>The source's colour step distance\<close>

text \<open>
  C9 (RasterSource). For a file that opens, with at least one sample and a data
  type of at least one bit, \<open>get_geotiff_data\<close> returns, and the step distance it
  returns is \<open>(observed_max - observed_min) / (2 ^ color_depth - 1)\<close> for the
  largest and the smallest sample of the raster; for a constant raster it is 0.
\<close>

theorem source_color_step_distance:
  assumes "gdal_Open path = Some ds" and "concat (ReadAsArray ds) \<noteq> []"
    and "0 < GetDataTypeSize ds"
  shows "\<exists>pw ph d. get_geotiff_data gdal_Open path =
            Inr (ReadAsArray ds, GetDataTypeSize ds, pw, ph, d) \<and>
          d = (Max (set (concat (ReadAsArray ds))) - Min (set (concat (ReadAsArray ds))))
              / (2 ^ GetDataTypeSize ds - 1) \<and>
          (Max (set (concat (ReadAsArray ds))) = Min (set (concat (ReadAsArray ds)))
             \<longrightarrow> d = 0)"
proof -
  define lo where "lo = Min (set (concat (ReadAsArray ds)))"
  define hi where "hi = Max (set (concat (ReadAsArray ds)))"
  define n where "n = GetDataTypeSize ds"
  have lo: "np_min (ReadAsArray ds) = Inr lo"
    unfolding np_min_Inr lo_def using assms(2) by blast
  have hi: "np_max (ReadAsArray ds) = Inr hi"
    unfolding np_max_Inr hi_def using assms(2) by blast
  have mm: "ComputeRasterMinMax ds = Inr (lo, hi)"
    by (simp add: ComputeRasterMinMax_def lo hi)
  have "(1::real) < 2 ^ n" using assms(3) by (simp add: n_def)
  then have dv: "py_truediv (hi - lo) (of_int (2 ^ n - 1)) = Inr ((hi - lo) / (2 ^ n - 1))"
    by (simp add: py_truediv_def)
  obtain g0 g1 g2 g3 g4 g5 where gt: "GetGeoTransform ds = (g0, g1, g2, g3, g4, g5)"
    by (metis prod_cases6)
  have "get_geotiff_data gdal_Open path =
      Inr (ReadAsArray ds, n, \<bar>g1\<bar>, \<bar>g5\<bar>, (hi - lo) / (2 ^ n - 1))"
    using assms(1) gt mm dv by (simp add: get_geotiff_data_def n_def Let_def)
  then show ?thesis unfolding lo_def hi_def n_def by simp
qed

theorem source_color_step_distance_witness:
  "get_geotiff_data (\<lambda>p. if p = ''dem.tif''
       then Some \<lparr>GetGeoTransform = (0, 2, 0, 0, 0, - 2),
                  ReadAsArray = [[1000, 2000], [3000, 4000]], GetDataTypeSize = 16\<rparr>
       else None) ''dem.tif''
     = Inr ([[1000, 2000], [3000, 4000]], 16, 2, 2, 3000 / 65535) \<and>
   get_geotiff_data (\<lambda>p. if p = ''flat.tif''
       then Some \<lparr>GetGeoTransform = (0, 1, 0, 0, 0, - 1),
                  ReadAsArray = [[5, 5], [5, 5]], GetDataTypeSize = 8\<rparr>
       else None) ''flat.tif''
     = Inr ([[5, 5], [5, 5]], 8, 1, 1, 0)"
proof -
  let ?ds = "\<lparr>GetGeoTransform = (0 :: real, 2 :: real, 0 :: real, 0 :: real, 0 :: real, - 2 :: real),
              ReadAsArray = [[1000, 2000], [3000, 4000]], GetDataTypeSize = 16\<rparr>"
  let ?fs = "\<lambda>p. if p = ''dem.tif'' then Some ?ds else None"
  let ?ds' = "\<lparr>GetGeoTransform = (0 :: real, 1 :: real, 0 :: real, 0 :: real, 0 :: real, - 1 :: real),
              ReadAsArray = [[5, 5], [5, 5]], GetDataTypeSize = 8\<rparr>"
  let ?fs' = "\<lambda>p. if p = ''flat.tif'' then Some ?ds' else None"
  have a1: "?fs ''dem.tif'' = Some ?ds" by simp
  have a2: "concat (ReadAsArray ?ds) \<noteq> []" by simp
  have a3: "0 < GetDataTypeSize ?ds" by simp
  have b1: "?fs' ''flat.tif'' = Some ?ds'" by simp
  have b2: "concat (ReadAsArray ?ds') \<noteq> []" by simp
  have b3: "0 < GetDataTypeSize ?ds'" by simp
  show ?thesis
    using source_color_step_distance [of ?fs "''dem.tif''" ?ds, OF a1 a2 a3]
      source_color_step_distance [of ?fs' "''flat.tif''" ?ds', OF b1 b2 b3]
    by (simp add: get_geotiff_data_def ComputeRasterMinMax_def np_min_def np_max_def
        py_truediv_def)
qed

subsection \<open>Resize factors\<close>

text \<open>
  C6, as stated (every non-positive target pixel size is rejected with an
  \<open>InvalidParameterError\<close>), fails: the function has no check, and a negative
  size gives negative factors.
\<close>

theorem resize_factors_negative_counterexample:
  "calculate_resize_factors 2 2 (- 1) = Inr (- 2, - 2)"
  by (simp add: calculate_resize_factors_def py_truediv_def)

text \<open>
  C6, amended. \<open>calculate_resize_factors\<close> does not validate the target pixel
  size. A target of 0 fails with Python's \<open>ZeroDivisionError\<close>, raised by the
  first division; a negative target returns the two (negative) quotients.
\<close>

theorem resize_factors_unvalidated:
  "calculate_resize_factors w h 0 = Inl ZeroDivisionError \<and>
   (t < 0 \<longrightarrow> calculate_resize_factors w h t = Inr (w / t, h / t))"
  by (simp add: calculate_resize_factors_def py_truediv_def)

theorem resize_factors_unvalidated_witness:
  "calculate_resize_factors 2 3 0 = Inl ZeroDivisionError \<and>
   calculate_resize_factors 2 3 (- 4) = Inr (- (1 / 2), - (3 / 4))"
  using resize_factors_unvalidated [of 2 3 "- 4"] by simp

text \<open>
  C7. For a positive target pixel size the factors are exactly the two quotients;
  in particular the factors of \<open>(2, 2, 1)\<close> are \<open>(2, 2)\<close>.
\<close>

theorem resize_factors_quotients:
  "0 < t \<Longrightarrow> calculate_resize_factors w h t = Inr (w / t, h / t)"
  by (simp add: calculate_resize_factors_def py_truediv_def)

theorem resize_factors_quotients_witness:
  "calculate_resize_factors 2 2 1 = Inr (2, 2) \<and>
   calculate_resize_factors 30 20 4 = Inr (15 / 2, 5)"
  using resize_factors_quotients [of 1 2 2] resize_factors_quotients [of 4 30 20] by simp

subsection \<open>Resized dimensions\<close>

lemma py_int_floor: "0 \<le> x \<Longrightarrow> py_int x = \<lfloor>x\<rfloor>"
  by (simp add: py_int_def)

lemma cv2_resize_empty_dsize:
  "w \<le> 0 \<or> h \<le> 0 \<Longrightarrow> cv2_resize interp img (w, h) = Inl Cv2Error"
  by (simp add: cv2_resize_def)

lemma cv2_resize_Inr:
  "fst (shape img) \<noteq> 0 \<Longrightarrow> snd (shape img) \<noteq> 0 \<Longrightarrow> 0 < w \<Longrightarrow> 0 < h \<Longrightarrow>
   cv2_resize interp img (w, h) =
     Inr (map (\<lambda>r. map (\<lambda>c. interp img (nat w, nat h) r c) [0..<nat w]) [0..<nat h])"
  by (simp add: cv2_resize_def)

text \<open>
  C8. For positive factors, \<open>resize_image\<close> asks OpenCV for
  \<open>\<lfloor>orig_width * fx\<rfloor>\<close> columns and \<open>\<lfloor>orig_height * fy\<rfloor>\<close> rows (truncation). Where
  both are positive the returned raster has exactly these dimensions; where one
  of them is 0 there is no raster, OpenCV raises.
\<close>

theorem resize_image_dimensions:
  assumes "0 < fx" and "0 < fy" and "shape img = (h, w)"
  shows "(resize_image interp img fx fy = Inl Cv2Error \<and>
            (\<lfloor>real w * fx\<rfloor> = 0 \<or> \<lfloor>real h * fy\<rfloor> = 0)) \<or>
         (\<exists>out. resize_image interp img fx fy = Inr out \<and>
            0 < \<lfloor>real w * fx\<rfloor> \<and> 0 < \<lfloor>real h * fy\<rfloor> \<and>
            length out = nat \<lfloor>real h * fy\<rfloor> \<and>
            (\<forall>row\<in>set out. length row = nat \<lfloor>real w * fx\<rfloor>) \<and>
            shape out = (nat \<lfloor>real h * fy\<rfloor>, nat \<lfloor>real w * fx\<rfloor>))"
proof -
  define W where "W = \<lfloor>real w * fx\<rfloor>"
  define H where "H = \<lfloor>real h * fy\<rfloor>"
  have nn: "0 \<le> real w * fx" "0 \<le> real h * fy" using assms(1,2) by simp_all
  then have fl: "0 \<le> W" "0 \<le> H" by (simp_all add: W_def H_def)
  have call: "resize_image interp img fx fy = cv2_resize interp img (W, H)"
    using nn by (simp add: resize_image_def assms(3) py_int_floor W_def H_def)
  have ?thesis unfolding W_def [symmetric] H_def [symmetric]
  proof (cases "W = 0 \<or> H = 0")
    case True
    then have "W \<le> 0 \<or> H \<le> 0" by auto
    then have "cv2_resize interp img (W, H) = Inl Cv2Error"
      by (rule cv2_resize_empty_dsize)
    with True call show "(resize_image interp img fx fy = Inl Cv2Error \<and> (W = 0 \<or> H = 0)) \<or>
         (\<exists>out. resize_image interp img fx fy = Inr out \<and> 0 < W \<and> 0 < H \<and>
            length out = nat H \<and> (\<forall>row\<in>set out. length row = nat W) \<and>
            shape out = (nat H, nat W))" by simp
  next
    case False
    with fl have pos: "0 < W" "0 < H" by simp_all
    have "w \<noteq> 0"
    proof
      assume "w = 0"
      then have "W = 0" by (simp add: W_def)
      with pos(1) show False by simp
    qed
    moreover have "h \<noteq> 0"
    proof
      assume "h = 0"
      then have "H = 0" by (simp add: H_def)
      with pos(2) show False by simp
    qed
    ultimately have ne: "fst (shape img) \<noteq> 0" "snd (shape img) \<noteq> 0"
      by (simp_all add: assms(3))
    define out where
      "out = map (\<lambda>r. map (\<lambda>c. interp img (nat W, nat H) r c) [0..<nat W]) [0..<nat H]"
    have r: "cv2_resize interp img (W, H) = Inr out"
      unfolding out_def using ne pos by (rule cv2_resize_Inr)
    have len: "length out = nat H" "\<forall>row\<in>set out. length row = nat W"
      by (auto simp: out_def)
    have "out \<noteq> []" using len(1) pos(2) by auto
    then obtain row rows where rows: "out = row # rows" by (cases out) auto
    with len(2) have "length row = nat W" by simp
    with rows len(1) have sh: "shape out = (nat H, nat W)" by (simp add: shape_def)
    from r call pos len sh
    show "(resize_image interp img fx fy = Inl Cv2Error \<and> (W = 0 \<or> H = 0)) \<or>
         (\<exists>out. resize_image interp img fx fy = Inr out \<and> 0 < W \<and> 0 < H \<and>
            length out = nat H \<and> (\<forall>row\<in>set out. length row = nat W) \<and>
            shape out = (nat H, nat W))" by simp
  qed
  then show ?thesis .
qed

theorem resize_image_dimensions_witness:
  "shape [[1, 2], [3, 4 :: real]] = (2, 2) \<and>
   resize_image (\<lambda>img d r c. 0) [[1, 2], [3, 4]] (19 / 10) (27 / 10) =
     Inr [[0, 0, 0], [0, 0, 0], [0, 0, 0], [0, 0, 0], [0, 0, 0]] \<and>
   \<lfloor>real 2 * (19 / 10)\<rfloor> = 3 \<and> \<lfloor>real 2 * (27 / 10)\<rfloor> = 5"
proof -
  have fx: "(0::real) < 19 / 10" and fy: "(0::real) < 27 / 10" by simp_all
  have sh: "shape [[1, 2], [3, 4 :: real]] = (2, 2)" by (simp add: shape_def)
  have ev: "resize_image (\<lambda>img d r c. 0) [[1, 2], [3, 4]] (19 / 10) (27 / 10) =
     Inr [[0, 0, 0], [0, 0, 0], [0, 0, 0], [0, 0, 0], [0, 0, 0]]"
    by (simp add: resize_image_def cv2_resize_def shape_def py_int_def upt_rec)
  show ?thesis
    using resize_image_dimensions [OF fx fy sh, of "\<lambda>img d r c. 0"] sh ev by simp
qed

subsection \<open>Arithmetic within a dtype\<close>

lemma rint_int: "\<exists>k. rint x = of_int k"
proof -
  have "rint x = of_int \<lfloor>x\<rfloor> \<or> rint x = of_int (\<lfloor>x\<rfloor> + 1)"
    unfolding rint_def Let_def by (simp del: of_int_add)
  then show ?thesis by blast
qed

lemma wrap_mod: "wrap dt k mod 2 ^ bit_width dt = k mod 2 ^ bit_width dt"
  by (simp add: wrap_def mod_simps)

lemma wrap_0: "wrap dt 0 = 0"
  by (cases dt) (simp_all add: wrap_def)

lemma half_range: "(2::int) * 2 ^ (bit_width dt - 1) = 2 ^ bit_width dt"
  by (cases dt) simp_all

lemma np_subtract_self: "np_subtract dt x x = 0"
  by (simp add: np_subtract_def wrap_0)

lemma np_subtract_floating: "floating dt \<Longrightarrow> np_subtract dt a b = a - b"
  by (simp add: np_subtract_def)

text \<open>The difference of two distinct values of a dtype may wrap, but never to 0.\<close>

lemma np_subtract_nonzero:
  assumes "representable dt lo" and "representable dt hi" and "lo < hi"
  shows "np_subtract dt hi lo \<noteq> 0"
proof (cases "floating dt")
  case True
  with assms(3) show ?thesis by (simp add: np_subtract_def)
next
  case False
  define k where "k = \<lfloor>hi\<rfloor> - \<lfloor>lo\<rfloor>"
  define m :: int where "m = 2 ^ bit_width dt"
  define h :: int where "h = 2 ^ (bit_width dt - 1)"
  have m: "2 * h = m" unfolding h_def m_def by (rule half_range)
  have ints: "of_int \<lfloor>lo\<rfloor> = lo" "of_int \<lfloor>hi\<rfloor> = hi"
    using assms(1,2) False unfolding representable_def by blast+
  have "(of_int \<lfloor>lo\<rfloor> :: real) < of_int \<lfloor>hi\<rfloor>" by (simp only: ints assms(3))
  then have "\<lfloor>lo\<rfloor> < \<lfloor>hi\<rfloor>" by (simp only: of_int_less_iff)
  then have pos: "0 < k" unfolding k_def by linarith
  have "k < m"
  proof (cases "is_signed dt")
    case True
    then have "- h \<le> \<lfloor>lo\<rfloor>" "\<lfloor>hi\<rfloor> < h"
      using assms(1,2) False unfolding representable_def h_def by auto
    then show ?thesis using m unfolding k_def by linarith
  next
    case unsigned: False
    then have "0 \<le> \<lfloor>lo\<rfloor>" "\<lfloor>hi\<rfloor> < m"
      using assms(1,2) False unfolding representable_def m_def by auto
    then show ?thesis unfolding k_def by linarith
  qed
  with pos have "k mod m = k" by simp
  then have "wrap dt k mod m = k" by (simp add: wrap_mod m_def)
  with pos have "wrap dt k \<noteq> 0" by auto
  then show ?thesis using False by (simp add: np_subtract_def k_def)
qed

subsection \<open>Normalisation\<close>

lemma normalize_Inr:
  assumes "np_min img = Inr lo" and "np_max img = Inr hi"
  shows "normalize_to_uint16 dt img t b =
     Inr (map (map (\<lambda>x. astype_uint16 (pixel_value dt lo hi t b x))) img,
          np_divide (np_subtract dt hi lo) (color_range_of dt lo hi t b))"
  using assms by (simp add: normalize_to_uint16_def)

lemma pixel_value_Finite:
  assumes "np_subtract dt hi lo \<noteq> 0"
  shows "pixel_value dt lo hi t b x =
     Finite (min (color_range_of dt lo hi t b)
               (max ((if b then rint (np_subtract dt x lo / np_subtract dt hi lo)
                      else np_subtract dt x lo / np_subtract dt hi lo)
                      * color_range_of dt lo hi t b) 0)
             + (65535 - color_range_of dt lo hi t b) / 2)"
  using assms by (simp add: pixel_value_def np_divide_def Let_def)

text \<open>Where \<open>color_range\<close> lies between 0 and 65535, every pixel value stays within
  the 16-bit range before the cast.\<close>

lemma pixel_value_in_range:
  assumes "np_subtract dt hi lo \<noteq> 0"
    and "0 \<le> color_range_of dt lo hi t b" and "color_range_of dt lo hi t b \<le> 65535"
  shows "\<exists>v. pixel_value dt lo hi t b x = Finite v \<and> 0 \<le> v \<and> v \<le> 65535"
proof -
  define cr where "cr = color_range_of dt lo hi t b"
  define m where "m = min cr (max ((if b then rint (np_subtract dt x lo / np_subtract dt hi lo)
    else np_subtract dt x lo / np_subtract dt hi lo) * cr) 0)"
  have "0 \<le> cr" "cr \<le> 65535" using assms(2,3) by (simp_all add: cr_def)
  moreover from this have "0 \<le> m" "m \<le> cr" by (simp_all add: m_def)
  ultimately have "0 \<le> m + (65535 - cr) / 2 \<and> m + (65535 - cr) / 2 \<le> 65535"
    by (simp add: field_simps)
  moreover have "pixel_value dt lo hi t b x = Finite (m + (65535 - cr) / 2)"
    unfolding m_def cr_def by (rule pixel_value_Finite [OF assms(1)])
  ultimately show ?thesis by blast
qed

text \<open>For a floating-point raster with \<open>img_max > img_min\<close> the differences are
  exact, and the step distance is \<open>(img_max - img_min) / color_range\<close>.\<close>

lemma normalize_floating:
  assumes "floating dt" and "np_min img = Inr lo" and "np_max img = Inr hi" and "lo < hi"
  shows "color_range_of dt lo hi t b =
           (if b then 65535 else if 0 < t \<and> t < 65535 then (hi - lo) / t else 65535) \<and>
         normalize_to_uint16 dt img t b =
           Inr (map (map (\<lambda>x. astype_uint16 (pixel_value dt lo hi t b x))) img,
                Finite ((hi - lo) / color_range_of dt lo hi t b))"
proof -
  have cr: "color_range_of dt lo hi t b =
      (if b then 65535 else if 0 < t \<and> t < 65535 then (hi - lo) / t else 65535)"
    using assms(1) by (simp add: color_range_of_def np_subtract_floating)
  with assms(4) have "color_range_of dt lo hi t b \<noteq> 0" by simp
  then have "np_divide (np_subtract dt hi lo) (color_range_of dt lo hi t b) =
      Finite ((hi - lo) / color_range_of dt lo hi t b)"
    using assms(1) by (simp add: np_divide_def np_subtract_floating)
  with cr show ?thesis by (simp add: normalize_Inr [OF assms(2,3)])
qed

text \<open>
  C2 (every pixel value of a raster with \<open>img_max > img_min\<close> lies within
  \<open>[0, 65535]\<close> before the cast). The code clips to \<open>[0, color_range]\<close>, and
  \<open>color_range\<close> exceeds 65535 as soon as the requested step distance is smaller
  than \<open>(img_max - img_min) / 65535\<close>. For the raster with the two samples 0 and
  100000, in continuous mode with a step distance of 1, \<open>color_range\<close> is 100000,
  the recentering offset is \<open>(65535 - 100000) / 2 = -17232.5\<close>, and the two pixel
  values before the cast are \<open>-17232.5\<close> and \<open>82767.5\<close>.
\<close>

theorem normalize_leaves_16bit_range:
  "np_min [[0, 100000]] = Inr 0 \<and> np_max [[0, 100000]] = Inr 100000 \<and>
   color_range_of float64 0 100000 1 False = 100000 \<and>
   map (map (pixel_value float64 0 100000 1 False)) [[0, 100000]]
     = [[Finite (- (34465 / 2)), Finite (165535 / 2)]]"
  by (simp add: np_min_def np_max_def color_range_of_def pixel_value_def np_divide_def
      np_subtract_def)

text \<open>
  C3 (\<open>color_range\<close> in continuous mode with a step distance \<open>t\<close>, \<open>0 < t < 65535\<close>,
  is \<open>(img_max - img_min) / t\<close>). The code subtracts in the raster2s dtype. For
  the \<open>int16\<close> raster with the samples -32768, 0 and 3000 and \<open>t = 1\<close> the
  difference 35768 wraps to -29768, \<open>color_range\<close> is -29768 and not 35768, the
  clip against a negative bound sends every sample to it, and the returned array
  is constant.
\<close>

theorem color_range_wraps:
  "well_typed int16 [[- 32768, 0, 3000]] \<and>
   np_min [[- 32768, 0, 3000]] = Inr (- 32768) \<and> np_max [[- 32768, 0, 3000]] = Inr 3000 \<and>
   np_subtract int16 3000 (- 32768) = - 29768 \<and>
   color_range_of int16 (- 32768) 3000 1 False = - 29768 \<and>
   normalize_to_uint16 int16 [[- 32768, 0, 3000]] 1 False =
     Inr ([[17883, 17883, 17883]], Finite 1)"
  by (simp add: well_typed_def representable_def np_min_def np_max_def np_subtract_def
      wrap_def color_range_of_def normalize_to_uint16_def pixel_value_def np_divide_def
      py_int_def)

text \<open>
  C5 (the returned step distance is \<open>(img_max - img_min) / color_range\<close>). The
  difference of line 65 is taken in the raster2s dtype as well. For the same
  \<open>int16\<close> raster over the full range (\<open>color_range = 65535\<close>) the call returns
  the step distance \<open>-29768 / 65535\<close>, where \<open>(img_max - img_min) / color_range\<close>
  is \<open>35768 / 65535\<close>; \<open>get_geotiff_data\<close>, which subtracts Python floats, gives
  \<open>35768 / 65535\<close> for this raster.
\<close>

theorem step_distance_wraps:
  "well_typed int16 [[- 32768, 0, 3000]] \<and>
   np_min [[- 32768, 0, 3000]] = Inr (- 32768) \<and> np_max [[- 32768, 0, 3000]] = Inr 3000 \<and>
   color_range_of int16 (- 32768) 3000 0 False = 65535 \<and>
   normalize_to_uint16 int16 [[- 32768, 0, 3000]] 0 False =
     Inr ([[0, 65535, 65535]], Finite (- (29768 / 65535))) \<and>
   get_geotiff_data (\<lambda>p. Some \<lparr>GetGeoTransform = (0, 1, 0, 0, 0, - 1),
       ReadAsArray = [[- 32768, 0, 3000]], GetDataTypeSize = 16\<rparr>) ''dem.tif''
     = Inr ([[- 32768, 0, 3000]], 16, 1, 1, 35768 / 65535)"
  by (simp add: well_typed_def representable_def np_min_def np_max_def np_subtract_def
      wrap_def color_range_of_def normalize_to_uint16_def pixel_value_def np_divide_def
      py_int_def get_geotiff_data_def ComputeRasterMinMax_def py_truediv_def)

subsection \<open>Binary mode\<close>

lemma binary_level:
  "min (65535::real) (max (of_int k * 65535) 0) = (if k \<le> 0 then 0 else 65535)"
proof (cases "k \<le> 0")
  case True
  then have "(of_int k :: real) \<le> 0" by simp
  then have "(of_int k :: real) * 65535 \<le> 0" by (simp add: mult_le_0_iff)
  with True show ?thesis by simp
next
  case False
  then have "(1::real) \<le> of_int k" by simp
  then have "(65535::real) \<le> of_int k * 65535" by simp
  with False show ?thesis by simp
qed

lemma binary_pixel:
  assumes "np_subtract dt hi lo \<noteq> 0"
  shows "astype_uint16 (pixel_value dt lo hi t True x) = 0 \<or>
         astype_uint16 (pixel_value dt lo hi t True x) = 65535"
proof -
  obtain k where "rint (np_subtract dt x lo / np_subtract dt hi lo) = of_int k"
    using rint_int by blast
  then have "pixel_value dt lo hi t True x = Finite (if k \<le> 0 then 0 else 65535)"
    by (simp add: pixel_value_Finite [OF assms] color_range_of_def binary_level)
  then show ?thesis by (simp add: py_int_def)
qed

lemma binary_pixel_min:
  "np_subtract dt hi lo \<noteq> 0 \<Longrightarrow> astype_uint16 (pixel_value dt lo hi t True lo) = 0"
  by (simp add: pixel_value_Finite color_range_of_def py_int_def rint_0 np_subtract_self)

lemma binary_pixel_max:
  "np_subtract dt hi lo \<noteq> 0 \<Longrightarrow> astype_uint16 (pixel_value dt lo hi t True hi) = 65535"
  by (simp add: pixel_value_Finite color_range_of_def py_int_def rint_1)

text \<open>
  C4 (binary mode). For every raster with \<open>img_max > img_min\<close>, of any dtype (its
  samples being values of that dtype), the call returns, and the returned array
  holds at most two distinct values; since the raster attains its minimum and
  its maximum, these values are exactly 0 and 65535. In an integer dtype the
  differences may wrap: single pixels then change level, the two levels stay.
\<close>

theorem binary_mode_two_levels:
  assumes "well_typed dt img"
    and "np_min img = Inr lo" and "np_max img = Inr hi" and "lo < hi"
  shows "\<exists>out d. normalize_to_uint16 dt img t True = Inr (out, d) \<and>
           set (concat out) = {0, 65535} \<and> card (set (concat out)) \<le> 2"
proof -
  let ?f = "\<lambda>x. astype_uint16 (pixel_value dt lo hi t True x)"
  let ?out = "map (map ?f) img"
  have mem: "lo \<in> set (concat img)" "hi \<in> set (concat img)"
    using assms(2,3) by (simp_all only: np_min_mem np_max_mem)
  with assms(1) have "representable dt lo" "representable dt hi"
    by (simp_all only: well_typed_def list_all_iff)
  then have nz: "np_subtract dt hi lo \<noteq> 0"
    using assms(4) by (rule np_subtract_nonzero)
  have ret: "normalize_to_uint16 dt img t True =
      Inr (?out, np_divide (np_subtract dt hi lo) (color_range_of dt lo hi t True))"
    using assms(2,3) by (rule normalize_Inr)
  have img_set: "set (concat ?out) = ?f ` set (concat img)"
    by (simp add: map_concat [symmetric] del: set_concat)
  have sub: "?f ` set (concat img) \<subseteq> {0, 65535}"
    using binary_pixel [OF nz] by auto
  have "?f lo = 0" using nz by (rule binary_pixel_min)
  with mem(1) have "0 \<in> ?f ` set (concat img)" by force
  moreover have "?f hi = 65535" using nz by (rule binary_pixel_max)
  with mem(2) have "65535 \<in> ?f ` set (concat img)" by force
  ultimately have "0 \<in> ?f ` set (concat img) \<and> 65535 \<in> ?f ` set (concat img)" ..
  with sub have eq: "?f ` set (concat img) = {0, 65535}" by blast
  have "card ({0, 65535} :: 16 word set) \<le> 2" by (simp add: card_insert_if)
  with eq img_set ret show ?thesis by simp
qed

theorem binary_mode_two_levels_witness:
  "well_typed float64 [[1, 2, 3], [4, 3 / 2, 5 / 2]] \<and>
   np_min [[1, 2, 3], [4, 3 / 2, 5 / 2]] = Inr 1 \<and> np_max [[1, 2, 3], [4, 3 / 2, 5 / 2]] = Inr 4 \<and>
   normalize_to_uint16 float64 [[1, 2, 3], [4, 3 / 2, 5 / 2]] 0 True =
     Inr ([[0, 0, 65535], [65535, 0, 0]], Finite (1 / 21845)) \<and>
   set (concat [[0, 0, 65535], [65535, 0, 0 :: 16 word]]) = {0, 65535} \<and>
   well_typed int16 [[- 32768, - 10000, 0, 3000]] \<and>
   normalize_to_uint16 int16 [[- 32768, - 10000, 0, 3000]] 0 True =
     Inr ([[0, 0, 65535, 65535]], Finite (- (29768 / 65535))) \<and>
   set (concat [[0, 0, 65535, 65535 :: 16 word]]) = {0, 65535}"
proof -
  have wt: "well_typed float64 [[1, 2, 3], [4, 3 / 2, 5 / 2]]"
    by (simp add: well_typed_def representable_def)
  have lo: "np_min [[1, 2, 3], [4, 3 / 2, 5 / 2]] = Inr 1" by (simp add: np_min_def)
  have hi: "np_max [[1, 2, 3], [4, 3 / 2, 5 / 2]] = Inr 4" by (simp add: np_max_def)
  have ev: "normalize_to_uint16 float64 [[1, 2, 3], [4, 3 / 2, 5 / 2]] 0 True =
     Inr ([[0, 0, 65535], [65535, 0, 0]], Finite (1 / 21845))"
    by (simp add: normalize_to_uint16_def np_min_def np_max_def color_range_of_def
        pixel_value_def np_divide_def np_subtract_def py_int_def rint_def Let_def)
  have "(1::real) < 4" by simp
  from binary_mode_two_levels [OF wt lo hi this, of 0] obtain out d
    where r: "normalize_to_uint16 float64 [[1, 2, 3], [4, 3 / 2, 5 / 2]] 0 True = Inr (out, d)"
      and s: "set (concat out) = {0, 65535}" by blast
  from r ev have "out = [[0, 0, 65535], [65535, 0, 0]]" by simp
  with s have s1: "set (concat [[0, 0, 65535], [65535, 0, 0 :: 16 word]]) = {0, 65535}"
    by (simp only:)
  have wt2: "well_typed int16 [[- 32768, - 10000, 0, 3000]]"
    by (simp add: well_typed_def representable_def)
  have lo2: "np_min [[- 32768, - 10000, 0, 3000]] = Inr (- 32768)" by (simp add: np_min_def)
  have hi2: "np_max [[- 32768, - 10000, 0, 3000]] = Inr 3000" by (simp add: np_max_def)
  have ev2: "normalize_to_uint16 int16 [[- 32768, - 10000, 0, 3000]] 0 True =
     Inr ([[0, 0, 65535, 65535]], Finite (- (29768 / 65535)))"
    by (simp add: normalize_to_uint16_def np_min_def np_max_def color_range_of_def
        pixel_value_def np_divide_def np_subtract_def wrap_def py_int_def rint_def Let_def)
  have "(- 32768 :: real) < 3000" by simp
  from binary_mode_two_levels [OF wt2 lo2 hi2 this, of 0] obtain out2 d2
    where r2: "normalize_to_uint16 int16 [[- 32768, - 10000, 0, 3000]] 0 True = Inr (out2, d2)"
      and s3: "set (concat out2) = {0, 65535}" by blast
  from r2 ev2 have "out2 = [[0, 0, 65535, 65535]]" by simp
  with s3 have s2: "set (concat [[0, 0, 65535, 65535 :: 16 word]]) = {0, 65535}"
    by (simp only:)
  from wt lo hi ev s1 wt2 ev2 s2 show ?thesis by (simp only: simp_thms)
qed

subsection \<open>Constant rasters\<close>

lemma constant_extrema:
  assumes "concat img \<noteq> []" and "\<forall>x\<in>set (concat img). x = c"
  shows "np_min img = Inr c \<and> np_max img = Inr c"
proof -
  have "set (concat img) = {c}" using assms by (cases "concat img") auto
  then show ?thesis using assms(1) by (simp only: np_min_Inr np_max_Inr) simp
qed

text \<open>
  C1, as stated (a constant raster makes normalisation raise a
  \<open>DegenerateRangeError\<close>), fails: numpy divides 0 by 0 to NaN without raising,
  and the function returns. For the 2 by 2 raster of the sample 5 every pixel
  value before the cast is NaN, in continuous and in binary mode, and the call
  returns the cast of these values.
\<close>

theorem constant_raster_counterexample:
  "np_min [[5, 5], [5, 5]] = Inr 5 \<and> np_max [[5, 5], [5, 5]] = Inr 5 \<and>
   pixel_value float64 5 5 0 False 5 = NaN \<and> pixel_value float64 5 5 0 True 5 = NaN \<and>
   normalize_to_uint16 float64 [[5, 5], [5, 5]] 0 False =
     Inr ([[astype_uint16 NaN, astype_uint16 NaN], [astype_uint16 NaN, astype_uint16 NaN]],
          Finite 0) \<and>
   normalize_to_uint16 float64 [[5, 5], [5, 5]] 0 True =
     Inr ([[astype_uint16 NaN, astype_uint16 NaN], [astype_uint16 NaN, astype_uint16 NaN]],
          Finite 0) \<and>
   normalize_to_uint16 float64 [[5, 5], [5, 5]] 2 False =
     Inr ([[astype_uint16 NaN, astype_uint16 NaN], [astype_uint16 NaN, astype_uint16 NaN]],
          NaN)"
  by (simp add: normalize_to_uint16_def np_min_def np_max_def color_range_of_def
      pixel_value_def np_divide_def np_subtract_def)

text \<open>
  C1, amended. For every constant raster with at least one sample, of any dtype,
  \<open>normalize_to_uint16\<close> raises no error, in continuous and in binary mode: it
  returns an array of the input's dimensions and a step distance.
\<close>

theorem constant_raster_returns:
  assumes "concat img \<noteq> []" and "\<forall>x\<in>set (concat img). x = c"
  shows "\<exists>out d. normalize_to_uint16 dt img t b = Inr (out, d) \<and>
           length out = length img \<and> map length out = map length img"
proof -
  from assms have "np_min img = Inr c" "np_max img = Inr c"
    by (simp_all add: constant_extrema)
  then show ?thesis by (simp add: normalize_Inr)
qed

theorem constant_raster_returns_witness:
  "\<exists>out d. normalize_to_uint16 float64 [[5, 5], [5, 5]] 0 True = Inr (out, d) \<and>
     length out = length [[5, 5], [5, 5 :: real]] \<and>
     map length out = map length [[5, 5], [5, 5 :: real]]"
proof -
  have ne: "concat [[5, 5], [5, 5 :: real]] \<noteq> []" by simp
  have const: "\<forall>x\<in>set (concat [[5, 5], [5, 5 :: real]]). x = 5" by simp
  show ?thesis by (rule constant_raster_returns [OF ne const])
qed

subsection \<open>Dimensions\<close>

text \<open>
  C10. For a raster with \<open>img_max > img_min\<close>, of any dtype, the call returns, and
  the returned array has the rows and the columns of the input: as many rows, and
  row by row as many samples.
\<close>

theorem normalize_keeps_shape:
  assumes "np_min img = Inr lo" and "np_max img = Inr hi" and "lo < hi"
  shows "\<exists>out d. normalize_to_uint16 dt img t b = Inr (out, d) \<and>
           length out = length img \<and> map length out = map length img \<and>
           shape out = shape img"
proof -
  let ?out = "map (map (\<lambda>x. astype_uint16 (pixel_value dt lo hi t b x))) img"
  have "shape ?out = shape img" by (cases img) (simp_all add: shape_def)
  then show ?thesis by (simp add: normalize_Inr [OF assms(1,2)])
qed

theorem normalize_keeps_shape_witness:
  "np_min [[1, 2, 3], [6, 5, 4]] = Inr 1 \<and> np_max [[1, 2, 3], [6, 5, 4]] = Inr 6 \<and>
   normalize_to_uint16 float64 [[1, 2, 3], [6, 5, 4]] 0 False =
     Inr ([[0, 13107, 26214], [65535, 52428, 39321]], Finite (1 / 13107)) \<and>
   shape [[0, 13107, 26214], [65535, 52428, 39321 :: 16 word]] = (2, 3) \<and>
   shape [[1, 2, 3], [6, 5, 4 :: real]] = (2, 3)"
proof -
  have lo: "np_min [[1, 2, 3], [6, 5, 4]] = Inr 1" by (simp add: np_min_def)
  have hi: "np_max [[1, 2, 3], [6, 5, 4]] = Inr 6" by (simp add: np_max_def)
  have lt: "(1::real) < 6" by simp
  show ?thesis
    using normalize_keeps_shape [OF lo hi lt, of float64 0 False] lo hi
    by (simp add: normalize_Inr color_range_of_def pixel_value_def np_divide_def
        np_subtract_def py_int_def shape_def)
qed

end
